theory Spec2Isabelle
  imports Main "HOL-Library.Word"
begin

section \<open>Values shared by the package\<close>

text \<open>
  Go's \<open>int64\<close> is a 64-bit word read as two's complement (\<open>sint\<close>); \<open>-\<close> on it
  wraps around as Go's does. Go's \<open>int\<close> (the byte count a read reports) has a
  platform-dependent width; its values are written as HOL integers, and the conversion
  \<open>int64(n)\<close> is \<open>word_of_int n\<close>, which is exact on every value a Go \<open>int\<close> can hold.
\<close>

type_synonym byte = "8 word"
type_synonym int64 = "64 word"

text \<open>
  A Go \<open>error\<close> value is \<open>nil\<close> (\<open>None\<close>) or an error. \<open>EOF\<close> is \<open>io.EOF\<close>;
  \<open>EUNSUPP\<close> and \<open>ENOFS\<close> are the two sentinels of the package; every other error
  a backend produces is an \<open>OtherError\<close> with its message.
\<close>

datatype error = EOF | EUNSUPP | ENOFS | OtherError string

text \<open>A run-time panic of the Go program: a method call or field access through \<open>nil\<close>.\<close>

datatype panic = NilDereference

text \<open>
  \<open>context.Context\<close> belongs to the standard library. Only \<open>context.Background()\<close> is
  named by the package; every other context is an opaque \<open>Derived\<close> value.
\<close>

datatype Context = Background | Derived nat

text \<open>The fields of \<open>net/url.URL\<close> that the package documentation refers to.\<close>

record URL =
  Scheme :: string
  Host :: string
  Path :: string
  RawQuery :: string

section \<open>The context-aware stream interfaces\<close>

text \<open>
  A Go slice \<open>[]byte\<close> is a window on an array: \<open>slice_array\<close> holds the bytes from the
  start of the slice to its capacity, \<open>slice_len\<close> is \<open>len(p)\<close>, and the length of
  \<open>slice_array\<close> is \<open>cap(p)\<close>. Whoever holds the slice can reach every byte up to the
  capacity by reslicing. The slice expression \<open>p[0:k]\<close> changes \<open>slice_len\<close> to \<open>k\<close> and
  keeps the array and the capacity. \<open>make([]byte, n)\<close> is a slice of \<open>n\<close> zero bytes.
\<close>

record slice =
  slice_array :: "byte list"
  slice_len :: nat

definition make_bytes :: "nat \<Rightarrow> slice" where
  "make_bytes n = \<lparr>slice_array = replicate n 0, slice_len = n\<rparr>"

text \<open>
  An interface value is its method table. The object behind it lives in a state of
  type \<open>'s\<close> that every method receives and returns. \<open>Read\<close> and \<open>Write\<close> get the
  slice they are called with; \<open>Read\<close> also returns the bytes of the array behind that
  slice as the call leaves them. A \<open>nil\<close> interface value is \<open>None\<close>.
\<close>

record 's ReadCloser =
  ReadCloser_Read :: "Context \<Rightarrow> slice \<Rightarrow> 's \<Rightarrow> (int \<times> error option) \<times> byte list \<times> 's"
  ReadCloser_Close :: "Context \<Rightarrow> 's \<Rightarrow> error option \<times> 's"

record 's WriteCloser =
  WriteCloser_Write :: "Context \<Rightarrow> slice \<Rightarrow> 's \<Rightarrow> (int \<times> error option) \<times> 's"
  WriteCloser_Close :: "Context \<Rightarrow> 's \<Rightarrow> error option \<times> 's"

section \<open>LimitedReadCloser\<close>

record 's LimitedReadCloser =
  R :: "'s ReadCloser option"
  N :: int64

text \<open>
  \<open>LimitedReadCloser.Read\<close>, called on an allocated decorator \<open>l\<close>. The result is a
  panic (a call through a \<open>nil\<close> field \<open>R\<close>), or the pair \<open>(n, err)\<close>, the caller's
  slice after the call, the decorator after the call and the state of the underlying
  object.
  \<open>len(p)\<close> fits a Go \<open>int\<close>, so \<open>int64(len(p)) > l.N\<close> is the comparison of
  \<open>int (slice_len p)\<close> with \<open>sint (N l)\<close>. The slice \<open>p[0:l.N]\<close> handed to the
  underlying read has the length \<open>l.N\<close> and still the array and capacity of \<open>p\<close>, so
  the caller's slice afterwards has its old length and the array as the underlying read
  left it.
\<close>

definition LimitedReadCloser_Read ::
  "'s LimitedReadCloser \<Rightarrow> Context \<Rightarrow> slice \<Rightarrow> 's \<Rightarrow>
     panic + ((int \<times> error option) \<times> slice \<times> 's LimitedReadCloser \<times> 's)" where
  "LimitedReadCloser_Read l ctx p s =
     (if sint (N l) \<le> 0 then Inr ((0, Some EOF), p, l, s)
      else
        let p' = (if sint (N l) < int (slice_len p)
                  then p\<lparr>slice_len := nat (sint (N l))\<rparr> else p) in
        (case R l of
           None \<Rightarrow> Inl NilDereference
         | Some rc \<Rightarrow>
             (case ReadCloser_Read rc ctx p' s of
                ((n, err), q, s') \<Rightarrow>
                  Inr ((n, err), p\<lparr>slice_array := q\<rparr>, l\<lparr>N := N l - word_of_int n\<rparr>, s'))))"

text \<open>\<open>LimitedReadCloser.Close\<close> changes no field of the decorator.\<close>

definition LimitedReadCloser_Close ::
  "'s LimitedReadCloser \<Rightarrow> Context \<Rightarrow> 's \<Rightarrow> panic + (error option \<times> 's)" where
  "LimitedReadCloser_Close l ctx s =
     (case R l of
        None \<Rightarrow> Inl NilDereference
      | Some rc \<Rightarrow> Inr (ReadCloser_Close rc ctx s))"

text \<open>
  A caller issuing one \<open>Read\<close> after another, each with its own context and buffer, as
  the tests of the package do. The results \<open>(n, err)\<close> are collected in call order; a
  panic ends the run.
\<close>

fun read_calls ::
  "'s LimitedReadCloser \<Rightarrow> (Context \<times> slice) list \<Rightarrow> 's \<Rightarrow>
     panic + ((int \<times> error option) list \<times> 's LimitedReadCloser \<times> 's)" where
  "read_calls l [] s = Inr ([], l, s)"
| "read_calls l ((ctx, p) # cs) s =
     (case LimitedReadCloser_Read l ctx p s of
        Inl e \<Rightarrow> Inl e
      | Inr (r, q, l', s') \<Rightarrow>
          (case read_calls l' cs s' of
             Inl e \<Rightarrow> Inl e
           | Inr (rs, l'', s'') \<Rightarrow> Inr (r # rs, l'', s'')))"

text \<open>
  The underlying stream of the first testable property: every read fills the buffer it
  is given and reports no error.
\<close>

definition fills_buffer :: "'s ReadCloser \<Rightarrow> bool" where
  "fills_buffer rc \<longleftrightarrow>
     (\<forall>ctx p s. fst (ReadCloser_Read rc ctx p s) = (int (slice_len p), None))"

text \<open>
  A read that never reports more bytes than the length of the buffer it was given.
\<close>

definition count_at_most_buffer :: "'s ReadCloser \<Rightarrow> bool" where
  "count_at_most_buffer rc \<longleftrightarrow>
     (\<forall>ctx p s. fst (fst (ReadCloser_Read rc ctx p s)) \<le> int (slice_len p))"

text \<open>
  The contract of a read (\<open>io.Reader\<close>): the count reported is a number of bytes of the
  buffer that was passed, so it lies between 0 and the length of that buffer.
\<close>

definition count_within_buffer :: "'s ReadCloser \<Rightarrow> bool" where
  "count_within_buffer rc \<longleftrightarrow>
     (\<forall>ctx p s. 0 \<le> fst (fst (ReadCloser_Read rc ctx p s)) \<and>
        fst (fst (ReadCloser_Read rc ctx p s)) \<le> int (slice_len p))"

text \<open>
  A stream whose read reports the count \<open>n\<close> with no error, whatever it is given, and
  touches neither the buffer nor its own state.
\<close>

definition reportingReadCloser :: "int \<Rightarrow> unit ReadCloser" where
  "reportingReadCloser n =
     \<lparr>ReadCloser_Read = (\<lambda>ctx p s. ((n, None), slice_array p, s)),
      ReadCloser_Close = (\<lambda>ctx s. (None, s))\<rparr>"

subsection \<open>The mock of the test file\<close>

text \<open>
  \<open>MockReadCloser\<close> of \<open>limited_reader_test.go\<close>. \<open>math/rand.Read\<close> writes the
  \<open>len(p)\<close> bytes of the slice and always returns \<open>len(p)\<close> and a \<open>nil\<close> error; the state
  of the mock is the stream of bytes the generator has still to produce.
\<close>

definition ErrExpected :: error where
  "ErrExpected = OtherError ''Expect this error''"

record MockReadCloser =
  Fail :: bool

definition rand_Read ::
  "slice \<Rightarrow> (nat \<Rightarrow> byte) \<Rightarrow> (int \<times> error option) \<times> byte list \<times> (nat \<Rightarrow> byte)" where
  "rand_Read p g =
     ((int (slice_len p), None),
      map g [0..<slice_len p] @ drop (slice_len p) (slice_array p),
      (\<lambda>i. g (i + slice_len p)))"

definition MockReadCloser_Read ::
  "MockReadCloser \<Rightarrow> Context \<Rightarrow> slice \<Rightarrow> (nat \<Rightarrow> byte) \<Rightarrow>
     (int \<times> error option) \<times> byte list \<times> (nat \<Rightarrow> byte)" where
  "MockReadCloser_Read r ctx p g =
     (if Fail r then ((0, Some ErrExpected), slice_array p, g) else rand_Read p g)"

definition MockReadCloser_Close ::
  "MockReadCloser \<Rightarrow> Context \<Rightarrow> (nat \<Rightarrow> byte) \<Rightarrow> error option \<times> (nat \<Rightarrow> byte)" where
  "MockReadCloser_Close r ctx g = (if Fail r then (Some ErrExpected, g) else (None, g))"

text \<open>The mock as a value of the interface \<open>ReadCloser\<close>.\<close>

definition mockReadCloser :: "MockReadCloser \<Rightarrow> (nat \<Rightarrow> byte) ReadCloser" where
  "mockReadCloser r =
     \<lparr>ReadCloser_Read = MockReadCloser_Read r, ReadCloser_Close = MockReadCloser_Close r\<rparr>"

section \<open>The adapters to io.ReadCloser and io.WriteCloser\<close>

record 's ioCompatReadCloser =
  readCloser :: "'s ReadCloser option"

record 's ioCompatWriteCloser =
  writeCloser :: "'s WriteCloser option"

definition ToIoReadCloser :: "'s ReadCloser option \<Rightarrow> 's ioCompatReadCloser" where
  "ToIoReadCloser rc = \<lparr>readCloser = rc\<rparr>"

definition ToIoWriteCloser :: "'s WriteCloser option \<Rightarrow> 's ioCompatWriteCloser" where
  "ToIoWriteCloser wc = \<lparr>writeCloser = wc\<rparr>"

definition ioCompatReadCloser_Read ::
  "'s ioCompatReadCloser \<Rightarrow> slice \<Rightarrow> 's \<Rightarrow>
     panic + ((int \<times> error option) \<times> byte list \<times> 's)" where
  "ioCompatReadCloser_Read rc p s =
     (let ctx = Background in
      case readCloser rc of
        None \<Rightarrow> Inl NilDereference
      | Some r \<Rightarrow> Inr (ReadCloser_Read r ctx p s))"

definition ioCompatReadCloser_Close ::
  "'s ioCompatReadCloser \<Rightarrow> 's \<Rightarrow> panic + (error option \<times> 's)" where
  "ioCompatReadCloser_Close rc s =
     (let ctx = Background in
      case readCloser rc of
        None \<Rightarrow> Inl NilDereference
      | Some r \<Rightarrow> Inr (ReadCloser_Close r ctx s))"

definition ioCompatWriteCloser_Write ::
  "'s ioCompatWriteCloser \<Rightarrow> slice \<Rightarrow> 's \<Rightarrow> panic + ((int \<times> error option) \<times> 's)" where
  "ioCompatWriteCloser_Write wc p s =
     (let ctx = Background in
      case writeCloser wc of
        None \<Rightarrow> Inl NilDereference
      | Some w \<Rightarrow> Inr (WriteCloser_Write w ctx p s))"

definition ioCompatWriteCloser_Close ::
  "'s ioCompatWriteCloser \<Rightarrow> 's \<Rightarrow> panic + (error option \<times> 's)" where
  "ioCompatWriteCloser_Close wc s =
     (let ctx = Background in
      case writeCloser wc of
        None \<Rightarrow> Inl NilDereference
      | Some w \<Rightarrow> Inr (WriteCloser_Close w ctx s))"

section \<open>The registry and the dispatch functions\<close>

text \<open>
  A backend works on a world of type \<open>'w\<close> (its files, its connections), which each of
  its methods receives and returns. A \<open>*url.URL\<close> is a pointer and can be \<open>nil\<close>
  (\<open>None\<close>). \<open>FileWatchFunc\<close> and \<open>CancelWatchFunc\<close> are function values, the error
  channel is identified by a number; each can be \<open>nil\<close>.
\<close>

type_synonym 'w FileWatchFunc = "URL option \<Rightarrow> 'w ReadCloser option \<Rightarrow> 'w \<Rightarrow> 'w"
type_synonym 'w CancelWatchFunc = "'w \<Rightarrow> error option \<times> 'w"
type_synonym chan_error = nat

record 'w FileSystem =
  FileSystem_OpenReader ::
    "Context \<Rightarrow> URL option \<Rightarrow> 'w \<Rightarrow> ('w ReadCloser option \<times> error option) \<times> 'w"
  FileSystem_OpenWriter ::
    "Context \<Rightarrow> URL option \<Rightarrow> 'w \<Rightarrow> ('w WriteCloser option \<times> error option) \<times> 'w"
  FileSystem_OpenAppender ::
    "Context \<Rightarrow> URL option \<Rightarrow> 'w \<Rightarrow> ('w WriteCloser option \<times> error option) \<times> 'w"
  FileSystem_ListEntries ::
    "Context \<Rightarrow> URL option \<Rightarrow> 'w \<Rightarrow> (string list option \<times> error option) \<times> 'w"
  FileSystem_WatchFile ::
    "Context \<Rightarrow> URL option \<Rightarrow> 'w FileWatchFunc option \<Rightarrow> 'w \<Rightarrow>
       ('w CancelWatchFunc option \<times> chan_error option \<times> error option) \<times> 'w"
  FileSystem_Remove ::
    "Context \<Rightarrow> URL option \<Rightarrow> 'w \<Rightarrow> error option \<times> 'w"

text \<open>
  The package variable \<open>registeredFileSystems\<close>, a Go map from scheme to an interface
  value of type \<open>FileSystem\<close>. The value stored under a key may itself be \<open>nil\<close>: the map
  then has the key (\<open>Some None\<close>), which differs from not having it (\<open>None\<close>). The
  functions of the package take the map as an argument; \<open>AddImplementation\<close> returns
  the map it leaves behind.
\<close>

type_synonym 'w registeredFileSystems = "string \<rightharpoonup> 'w FileSystem option"

definition AddImplementation ::
  "'w registeredFileSystems \<Rightarrow> string \<Rightarrow> 'w FileSystem option \<Rightarrow> 'w registeredFileSystems" where
  "AddImplementation reg scheme fs = reg(scheme \<mapsto> fs)"

text \<open>The argument is a pointer \<open>*url.URL\<close>; reading \<open>Scheme\<close> through \<open>nil\<close> panics.\<close>

definition GetImplementation ::
  "'w registeredFileSystems \<Rightarrow> URL option \<Rightarrow> panic + 'w FileSystem option" where
  "GetImplementation reg fileurl =
     (case fileurl of
        None \<Rightarrow> Inl NilDereference
      | Some u \<Rightarrow>
          (case reg (Scheme u) of
             Some fs \<Rightarrow> Inr fs
           | None \<Rightarrow> Inr None))"

definition HasImplementation :: "'w registeredFileSystems \<Rightarrow> string \<Rightarrow> bool" where
  "HasImplementation reg scheme = (case reg scheme of Some fs \<Rightarrow> True | None \<Rightarrow> False)"

text \<open>
  The six dispatch functions. Each returns a panic, or the result values together with
  the world the call leaves behind. The backend receives the context and the URL pointer
  as they were passed.
\<close>

definition OpenReader ::
  "'w registeredFileSystems \<Rightarrow> Context \<Rightarrow> URL option \<Rightarrow> 'w \<Rightarrow>
     panic + (('w ReadCloser option \<times> error option) \<times> 'w)" where
  "OpenReader reg ctx fileurl w =
     (case GetImplementation reg fileurl of
        Inl e \<Rightarrow> Inl e
      | Inr None \<Rightarrow> Inr ((None, Some ENOFS), w)
      | Inr (Some fs) \<Rightarrow> Inr (FileSystem_OpenReader fs ctx fileurl w))"

definition OpenWriter ::
  "'w registeredFileSystems \<Rightarrow> Context \<Rightarrow> URL option \<Rightarrow> 'w \<Rightarrow>
     panic + (('w WriteCloser option \<times> error option) \<times> 'w)" where
  "OpenWriter reg ctx fileurl w =
     (case GetImplementation reg fileurl of
        Inl e \<Rightarrow> Inl e
      | Inr None \<Rightarrow> Inr ((None, Some ENOFS), w)
      | Inr (Some fs) \<Rightarrow> Inr (FileSystem_OpenWriter fs ctx fileurl w))"

definition OpenAppender ::
  "'w registeredFileSystems \<Rightarrow> Context \<Rightarrow> URL option \<Rightarrow> 'w \<Rightarrow>
     panic + (('w WriteCloser option \<times> error option) \<times> 'w)" where
  "OpenAppender reg ctx fileurl w =
     (case GetImplementation reg fileurl of
        Inl e \<Rightarrow> Inl e
      | Inr None \<Rightarrow> Inr ((None, Some ENOFS), w)
      | Inr (Some fs) \<Rightarrow> Inr (FileSystem_OpenAppender fs ctx fileurl w))"

definition ListEntries ::
  "'w registeredFileSystems \<Rightarrow> Context \<Rightarrow> URL option \<Rightarrow> 'w \<Rightarrow>
     panic + ((string list option \<times> error option) \<times> 'w)" where
  "ListEntries reg ctx dirurl w =
     (case GetImplementation reg dirurl of
        Inl e \<Rightarrow> Inl e
      | Inr None \<Rightarrow> Inr ((None, Some ENOFS), w)
      | Inr (Some fs) \<Rightarrow> Inr (FileSystem_ListEntries fs ctx dirurl w))"

definition WatchFile ::
  "'w registeredFileSystems \<Rightarrow> Context \<Rightarrow> URL option \<Rightarrow> 'w FileWatchFunc option \<Rightarrow> 'w \<Rightarrow>
     panic + (('w CancelWatchFunc option \<times> chan_error option \<times> error option) \<times> 'w)" where
  "WatchFile reg ctx fileurl watcher w =
     (case GetImplementation reg fileurl of
        Inl e \<Rightarrow> Inl e
      | Inr None \<Rightarrow> Inr ((None, None, Some ENOFS), w)
      | Inr (Some fs) \<Rightarrow> Inr (FileSystem_WatchFile fs ctx fileurl watcher w))"

definition Remove ::
  "'w registeredFileSystems \<Rightarrow> Context \<Rightarrow> URL option \<Rightarrow> 'w \<Rightarrow> panic + (error option \<times> 'w)" where
  "Remove reg ctx fileurl w =
     (case GetImplementation reg fileurl of
        Inl e \<Rightarrow> Inl e
      | Inr None \<Rightarrow> Inr (Some ENOFS, w)
      | Inr (Some fs) \<Rightarrow> Inr (FileSystem_Remove fs ctx fileurl w))"

text \<open>
  A backend of the kind the documentation of \<open>FileSystem\<close> describes for functions that
  are not supported: every method returns \<open>EUNSUPP\<close>. Its world is a counter that each
  call advances by \<open>k\<close>, so a call of any of its methods shows in the world.
\<close>

definition unsupportedFileSystem :: "nat \<Rightarrow> nat FileSystem" where
  "unsupportedFileSystem k =
     \<lparr>FileSystem_OpenReader = (\<lambda>ctx u w. ((None, Some EUNSUPP), w + k)),
      FileSystem_OpenWriter = (\<lambda>ctx u w. ((None, Some EUNSUPP), w + k)),
      FileSystem_OpenAppender = (\<lambda>ctx u w. ((None, Some EUNSUPP), w + k)),
      FileSystem_ListEntries = (\<lambda>ctx u w. ((None, Some EUNSUPP), w + k)),
      FileSystem_WatchFile = (\<lambda>ctx u f w. ((None, None, Some EUNSUPP), w + k)),
      FileSystem_Remove = (\<lambda>ctx u w. (Some EUNSUPP, w + k))\<rparr>"

section \<open>Facts about a single read and about runs of reads\<close>

text \<open>With a budget of zero or less, nothing but the result is produced.\<close>

lemma Read_exhausted:
  "sint (N l) \<le> 0 \<Longrightarrow> LimitedReadCloser_Read l ctx p s = Inr ((0, Some EOF), p, l, s)"
  by (simp add: LimitedReadCloser_Read_def)

text \<open>
  Subtracting a count between 0 and the budget does not wrap around.
\<close>

lemma sint_sub_count:
  fixes w :: int64
  assumes "0 \<le> k" "k \<le> sint w"
  shows "sint (w - word_of_int k) = sint w - k"
proof -
  have lt: "sint w < 2 ^ 63" using sint_lt [of w] by simp
  have eqk: "sint (word_of_int k :: int64) = k"
    using assms lt by (simp add: signed_of_int signed_take_bit_int_eq_self)
  have "sint (w - word_of_int k) = signed_take_bit 63 (sint w - sint (word_of_int k :: int64))"
    by (simp add: sint_word_ariths)
  also have "\<dots> = sint w - k"
    using assms lt eqk by (simp add: signed_take_bit_int_eq_self)
  finally show ?thesis .
qed

text \<open>A read with a positive budget, in terms of what the underlying read returns.\<close>

lemma Read_positive:
  assumes "0 < sint (N l)" and "R l = Some rc"
    and "ReadCloser_Read rc ctx
           (if sint (N l) < int (slice_len p) then p\<lparr>slice_len := nat (sint (N l))\<rparr> else p) s
         = ((n, err), q, s')"
  shows "LimitedReadCloser_Read l ctx p s =
           Inr ((n, err), p\<lparr>slice_array := q\<rparr>, l\<lparr>N := N l - word_of_int n\<rparr>, s')"
  using assms by (simp add: LimitedReadCloser_Read_def Let_def)

text \<open>The slice handed to the underlying read has the smaller of the two lengths.\<close>

lemma granted_eq:
  "0 \<le> sint (N l) \<Longrightarrow>
   (if sint (N l) < int (slice_len p) then p\<lparr>slice_len := nat (sint (N l))\<rparr> else p)
     = p\<lparr>slice_len := nat (min (sint (N l)) (int (slice_len p)))\<rparr>"
  by (simp add: min_def)

lemma within_Read:
  assumes w: "count_within_buffer rc" and r: "R l = Some rc" and b: "0 \<le> sint (N l)"
  shows "\<exists>n err q l' s'. LimitedReadCloser_Read l ctx p s = Inr ((n, err), q, l', s') \<and>
           R l' = Some rc \<and> 0 \<le> n \<and> n \<le> sint (N l) \<and> n \<le> int (slice_len p) \<and>
           sint (N l') = sint (N l) - n"
proof (cases "sint (N l) = 0")
  case True
  then show ?thesis using r by (simp add: Read_exhausted)
next
  case False
  with b have pos: "0 < sint (N l)" by simp
  let ?p = "if sint (N l) < int (slice_len p) then p\<lparr>slice_len := nat (sint (N l))\<rparr> else p"
  obtain n err q s' where u: "ReadCloser_Read rc ctx ?p s = ((n, err), q, s')"
    by (metis prod.exhaust)
  from w u have n0: "0 \<le> n" and nl: "n \<le> int (slice_len ?p)"
    unfolding count_within_buffer_def by (metis fst_conv)+
  from nl pos have n1: "n \<le> sint (N l)" and n2: "n \<le> int (slice_len p)"
    by (simp_all split: if_splits)
  have "sint (N l - word_of_int n) = sint (N l) - n"
    using n0 n1 by (rule sint_sub_count)
  with Read_positive [OF pos r u] r n0 n1 n2 show ?thesis by simp
qed

text \<open>
  In front of a stream that fills every buffer, a read with a positive budget calls the
  stream once, on the slice cut to the budget, and returns the length of that slice.
\<close>

lemma fills_Read:
  assumes f: "fills_buffer rc" and r: "R l = Some rc" and pos: "0 < sint (N l)"
  shows "\<exists>q s1.
           snd (ReadCloser_Read rc ctx
                 (p\<lparr>slice_len := nat (min (sint (N l)) (int (slice_len p)))\<rparr>) s) = (q, s1) \<and>
           LimitedReadCloser_Read l ctx p s =
             Inr ((min (sint (N l)) (int (slice_len p)), None), p\<lparr>slice_array := q\<rparr>,
                  l\<lparr>N := N l - word_of_int (min (sint (N l)) (int (slice_len p)))\<rparr>, s1) \<and>
           sint (N l - word_of_int (min (sint (N l)) (int (slice_len p))))
             = sint (N l) - min (sint (N l)) (int (slice_len p))"
proof -
  let ?k = "min (sint (N l)) (int (slice_len p))"
  let ?p = "p\<lparr>slice_len := nat ?k\<rparr>"
  from pos have b: "0 \<le> sint (N l)" by simp
  obtain n err q s1 where u: "ReadCloser_Read rc ctx ?p s = ((n, err), q, s1)"
    by (metis prod.exhaust)
  from f u have "(n, err) = (int (slice_len ?p), None)"
    unfolding fills_buffer_def by (metis fst_conv)
  with pos have n: "n = ?k" and e: "err = None" by simp_all
  from u n e have u': "ReadCloser_Read rc ctx
      (if sint (N l) < int (slice_len p) then p\<lparr>slice_len := nat (sint (N l))\<rparr> else p) s
      = ((?k, None), q, s1)"
    by (simp only: granted_eq [OF b])
  have sub: "sint (N l - word_of_int ?k) = sint (N l) - ?k"
    using pos by (intro sint_sub_count) simp_all
  from u have "snd (ReadCloser_Read rc ctx ?p s) = (q, s1)" by simp
  with Read_positive [OF pos r u'] sub show ?thesis by blast
qed

text \<open>One read in front of such a stream, for a budget that may also be zero.\<close>

lemma fills_step:
  assumes f: "fills_buffer rc" and r: "R l = Some rc" and b: "0 \<le> sint (N l)"
  shows "\<exists>n err q l' s'. LimitedReadCloser_Read l ctx p s = Inr ((n, err), q, l', s') \<and>
           R l' = Some rc \<and> sint (N l') = sint (N l) - n \<and> 0 \<le> sint (N l') \<and>
           (n, err) = (if sint (N l) = 0 then (0, Some EOF)
                       else (min (sint (N l)) (int (slice_len p)), None))"
proof (cases "sint (N l) = 0")
  case True
  then show ?thesis using r by (simp add: Read_exhausted)
next
  case False
  with b have pos: "0 < sint (N l)" by simp
  from fills_Read [OF f r pos, of ctx p s] r False pos show ?thesis
    by (auto simp add: min_def)
qed

lemma fills_read_calls:
  assumes f: "fills_buffer rc"
  shows "R l = Some rc \<Longrightarrow> 0 \<le> sint (N l) \<Longrightarrow>
    \<exists>rs l' s'. read_calls l cs s = Inr (rs, l', s') \<and> length rs = length cs \<and>
      R l' = R l \<and>
      sint (N l') = sint (N l) - sum_list (map fst rs) \<and>
      sum_list (map fst rs)
        = min (sint (N l)) (sum_list (map (\<lambda>c. int (slice_len (snd c))) cs)) \<and>
      (\<forall>i<length rs.
         rs ! i =
           (if sum_list (map fst (take i rs)) = sint (N l) then (0, Some EOF)
            else (min (sint (N l) - sum_list (map fst (take i rs)))
                      (int (slice_len (snd (cs ! i)))), None)))"
proof (induction cs arbitrary: l s)
  case Nil
  then show ?case by simp
next
  case (Cons c cs)
  obtain ctx p where c: "c = (ctx, p)" by (cases c)
  from fills_step [OF f Cons.prems, of ctx p s]
  obtain n err q l1 s1 where
    step: "LimitedReadCloser_Read l ctx p s = Inr ((n, err), q, l1, s1)" and
    r1: "R l1 = Some rc" and
    b1: "sint (N l1) = sint (N l) - n" and b1': "0 \<le> sint (N l1)" and
    res: "(n, err) = (if sint (N l) = 0 then (0, Some EOF)
                      else (min (sint (N l)) (int (slice_len p)), None))"
    by blast
  from Cons.IH [OF r1 b1', of s1]
  obtain rs l' s' where
    run: "read_calls l1 cs s1 = Inr (rs, l', s')" and len: "length rs = length cs" and
    rl: "R l' = R l1" and
    fin: "sint (N l') = sint (N l1) - sum_list (map fst rs)" and
    tot: "sum_list (map fst rs)
        = min (sint (N l1)) (sum_list (map (\<lambda>c. int (slice_len (snd c))) cs))" and
    ih: "\<forall>i<length rs.
         rs ! i =
           (if sum_list (map fst (take i rs)) = sint (N l1) then (0, Some EOF)
            else (min (sint (N l1) - sum_list (map fst (take i rs)))
                      (int (slice_len (snd (cs ! i)))), None))"
    by blast
  have all: "read_calls l (c # cs) s = Inr ((n, err) # rs, l', s')"
    using c step run by simp
  have nonneg: "0 \<le> sum_list (map (\<lambda>c. int (slice_len (snd c))) cs)"
    by (rule sum_list_nonneg) auto
  have n_eq: "n = (if sint (N l) = 0 then 0 else min (sint (N l)) (int (slice_len p)))"
    using res by (simp split: if_splits)
  have total: "sum_list (map fst ((n, err) # rs))
      = min (sint (N l)) (sum_list (map (\<lambda>c. int (slice_len (snd c))) (c # cs)))"
    using tot b1 n_eq nonneg Cons.prems(2) c by (simp add: min_def split: if_splits)
  have each: "((n, err) # rs) ! i =
           (if sum_list (map fst (take i ((n, err) # rs))) = sint (N l) then (0, Some EOF)
            else (min (sint (N l) - sum_list (map fst (take i ((n, err) # rs))))
                      (int (slice_len (snd ((c # cs) ! i)))), None))"
    if "i < length ((n, err) # rs)" for i
  proof (cases i)
    case 0
    then show ?thesis using res c by (auto split: if_splits)
  next
    case (Suc j)
    with that have j: "j < length rs" by simp
    have s: "sum_list (map fst (take i ((n, err) # rs))) = n + sum_list (map fst (take j rs))"
      using Suc by simp
    from ih j have "rs ! j =
           (if sum_list (map fst (take j rs)) = sint (N l1) then (0, Some EOF)
            else (min (sint (N l1) - sum_list (map fst (take j rs)))
                      (int (slice_len (snd (cs ! j)))), None))"
      by blast
    then show ?thesis using Suc s b1 by (auto simp add: algebra_simps)
  qed
  show ?case
    using all len fin b1 rl r1 Cons.prems(1) total each
    by (intro exI [of _ "(n, err) # rs"] exI [of _ l'] exI [of _ s']) simp
qed

lemma within_read_calls:
  assumes w: "count_within_buffer rc"
  shows "R l = Some rc \<Longrightarrow> 0 \<le> sint (N l) \<Longrightarrow>
    \<exists>rs l' s'. read_calls l cs s = Inr (rs, l', s') \<and> 0 \<le> sint (N l')"
proof (induction cs arbitrary: l s)
  case Nil
  then show ?case by simp
next
  case (Cons c cs)
  obtain ctx p where c: "c = (ctx, p)" by (cases c)
  from within_Read [OF w Cons.prems, of ctx p s]
  obtain n err q l1 s1 where
    step: "LimitedReadCloser_Read l ctx p s = Inr ((n, err), q, l1, s1)" and
    r1: "R l1 = Some rc" and "0 \<le> n" and "n \<le> sint (N l)" and
    b1: "sint (N l1) = sint (N l) - n"
    by blast
  then have b1': "0 \<le> sint (N l1)" by simp
  from Cons.IH [OF r1 b1', of s1]
  obtain rs l' s' where "read_calls l1 cs s1 = Inr (rs, l', s')" and "0 \<le> sint (N l')"
    by blast
  with c step show ?case by simp
qed

text \<open>A scheme that is not a key of the registry resolves to \<open>nil\<close>.\<close>

lemma GetImplementation_unregistered:
  "\<not> HasImplementation reg (Scheme u) \<Longrightarrow> GetImplementation reg (Some u) = Inr None"
  by (simp add: HasImplementation_def GetImplementation_def split: option.splits)

section \<open>The limiting decorator\<close>

text \<open>
  Claim C1. Let the budget \<open>N\<close> be non-negative and let the underlying stream fill every
  buffer it is given without error.

  One read with a positive budget calls the underlying stream once, on the caller's slice
  cut to the smaller of budget and length; it returns that length with no error, the
  state in which the stream left its object, and a budget reduced by that length.

  Any sequence \<open>cs\<close> of \<open>Read\<close> calls runs to its end without a panic and gives one
  result per call. The call number \<open>i\<close> returns \<open>(0, EOF)\<close> if the counts returned
  before it add up to exactly \<open>N\<close>, and otherwise returns, with no error, the smaller of
  what is left of the budget and the length of its buffer. The counts of the whole run
  add up to the smaller of \<open>N\<close> and the total length of the buffers: the reads deliver
  exactly \<open>N\<close> bytes as soon as that many were asked for, never more, and every read from
  then on returns \<open>(0, EOF)\<close>. The budget left is \<open>N\<close> minus the total delivered.
\<close>

theorem C1_total_equals_budget:
  assumes "0 \<le> sint (N l)" and "R l = Some rc" and "fills_buffer rc"
  shows
    "(0 < sint (N l) \<longrightarrow>
        (\<exists>q s1.
           snd (ReadCloser_Read rc ctx
                 (p\<lparr>slice_len := nat (min (sint (N l)) (int (slice_len p)))\<rparr>) s) = (q, s1) \<and>
           LimitedReadCloser_Read l ctx p s =
             Inr ((min (sint (N l)) (int (slice_len p)), None), p\<lparr>slice_array := q\<rparr>,
                  l\<lparr>N := N l - word_of_int (min (sint (N l)) (int (slice_len p)))\<rparr>, s1) \<and>
           sint (N l - word_of_int (min (sint (N l)) (int (slice_len p))))
             = sint (N l) - min (sint (N l)) (int (slice_len p)))) \<and>
     (\<exists>rs l' s'. read_calls l cs s = Inr (rs, l', s') \<and> length rs = length cs \<and>
        R l' = R l \<and>
        sint (N l') = sint (N l) - sum_list (map fst rs) \<and>
        sum_list (map fst rs)
          = min (sint (N l)) (sum_list (map (\<lambda>c. int (slice_len (snd c))) cs)) \<and>
        (\<forall>i<length rs.
           rs ! i =
             (if sum_list (map fst (take i rs)) = sint (N l) then (0, Some EOF)
              else (min (sint (N l) - sum_list (map fst (take i rs)))
                        (int (slice_len (snd (cs ! i)))), None))))"
proof (intro conjI impI)
  assume "0 < sint (N l)"
  from fills_Read [OF assms(3) assms(2) this, of ctx p s]
  show "\<exists>q s1.
           snd (ReadCloser_Read rc ctx
                 (p\<lparr>slice_len := nat (min (sint (N l)) (int (slice_len p)))\<rparr>) s) = (q, s1) \<and>
           LimitedReadCloser_Read l ctx p s =
             Inr ((min (sint (N l)) (int (slice_len p)), None), p\<lparr>slice_array := q\<rparr>,
                  l\<lparr>N := N l - word_of_int (min (sint (N l)) (int (slice_len p)))\<rparr>, s1) \<and>
           sint (N l - word_of_int (min (sint (N l)) (int (slice_len p))))
             = sint (N l) - min (sint (N l)) (int (slice_len p))" .
next
  from fills_read_calls [OF assms(3) assms(2) assms(1), of cs s]
  show "\<exists>rs l' s'. read_calls l cs s = Inr (rs, l', s') \<and> length rs = length cs \<and>
        R l' = R l \<and>
        sint (N l') = sint (N l) - sum_list (map fst rs) \<and>
        sum_list (map fst rs)
          = min (sint (N l)) (sum_list (map (\<lambda>c. int (slice_len (snd c))) cs)) \<and>
        (\<forall>i<length rs.
           rs ! i =
             (if sum_list (map fst (take i rs)) = sint (N l) then (0, Some EOF)
              else (min (sint (N l) - sum_list (map fst (take i rs)))
                        (int (slice_len (snd (cs ! i)))), None)))" .
qed

text \<open>
  The second multiple-read test of the package: a budget of 125, the mock that fills
  every buffer, three reads into a buffer of 100 bytes. The theorem alone gives the total
  of 125; the three results are those of the test.
\<close>

theorem C1_total_equals_budget_witness:
  "0 \<le> sint (N \<lparr>R = Some (mockReadCloser \<lparr>Fail = False\<rparr>), N = 125\<rparr>) \<and>
   fills_buffer (mockReadCloser \<lparr>Fail = False\<rparr>) \<and>
   (\<exists>rs l' s'. read_calls \<lparr>R = Some (mockReadCloser \<lparr>Fail = False\<rparr>), N = 125\<rparr>
       [(Background, make_bytes 100), (Background, make_bytes 100),
        (Background, make_bytes 100)] (\<lambda>i. of_nat i)
     = Inr (rs, l', s') \<and> sum_list (map fst rs) = 125 \<and> sint (N l') = 0 \<and>
     rs = [(100, None), (25, None), (0, Some EOF)])"
proof -
  let ?rc = "mockReadCloser \<lparr>Fail = False\<rparr>"
  let ?l = "\<lparr>R = Some ?rc, N = 125\<rparr>"
  let ?cs = "[(Background, make_bytes 100), (Background, make_bytes 100),
              (Background, make_bytes 100)]"
  let ?g = "(\<lambda>i. of_nat i) :: nat \<Rightarrow> byte"
  have b: "0 \<le> sint (N ?l)" by simp
  have r: "R ?l = Some ?rc" by simp
  have f: "fills_buffer ?rc"
    by (simp add: fills_buffer_def mockReadCloser_def MockReadCloser_Read_def rand_Read_def)
  from C1_total_equals_budget [OF b r f, where cs = ?cs and s = ?g]
  obtain rs l' s' where
    run: "read_calls ?l ?cs ?g = Inr (rs, l', s')" and
    left: "sint (N l') = sint (N ?l) - sum_list (map fst rs)" and
    tot: "sum_list (map fst rs)
          = min (sint (N ?l)) (sum_list (map (\<lambda>c. int (slice_len (snd c))) ?cs))"
    by blast
  from tot have t: "sum_list (map fst rs) = 125" by (simp add: make_bytes_def)
  have "\<exists>l' s'. read_calls ?l ?cs ?g = Inr ([(100, None), (25, None), (0, Some EOF)], l', s')"
    by (simp add: LimitedReadCloser_Read_def mockReadCloser_def MockReadCloser_Read_def
        rand_Read_def make_bytes_def)
  with run have "rs = [(100, None), (25, None), (0, Some EOF)]" by auto
  with run left t b f show ?thesis by auto
qed

text \<open>
  Claim C3, as stated, fails in two places. With a budget of 25 and a buffer of 100 bytes,
  a stream that reports 200 makes the call return 200, more than the budget: the slice
  bounds what the stream is given, not what it reports. And a stream that reports -1
  never reports more than the length of its buffer, yet with the budget at the largest
  \<open>int64\<close> the subtraction \<open>l.N -= int64(n)\<close> wraps around and leaves the budget
  negative.
\<close>

theorem C3_count_unbounded_counterexample:
  "0 < sint (N \<lparr>R = Some (reportingReadCloser 200), N = 25\<rparr>) \<and>
   sint (N \<lparr>R = Some (reportingReadCloser 200), N = 25\<rparr>) < int (slice_len (make_bytes 100)) \<and>
   LimitedReadCloser_Read \<lparr>R = Some (reportingReadCloser 200), N = 25\<rparr>
       Background (make_bytes 100) ()
     = Inr ((200, None), make_bytes 100,
            \<lparr>R = Some (reportingReadCloser 200), N = 25 - 200\<rparr>, ()) \<and>
   \<not> (200 :: int) \<le> 25 \<and>
   count_at_most_buffer (reportingReadCloser (- 1)) \<and>
   0 < sint (N \<lparr>R = Some (reportingReadCloser (- 1)), N = 9223372036854775807\<rparr>) \<and>
   LimitedReadCloser_Read \<lparr>R = Some (reportingReadCloser (- 1)), N = 9223372036854775807\<rparr>
       Background (make_bytes 1) ()
     = Inr ((- 1, None), make_bytes 1,
            \<lparr>R = Some (reportingReadCloser (- 1)), N = 9223372036854775807 + 1\<rparr>, ()) \<and>
   sint (9223372036854775807 + 1 :: int64) = - 9223372036854775808"
  by (simp add: LimitedReadCloser_Read_def reportingReadCloser_def make_bytes_def
      count_at_most_buffer_def)

text \<open>
  Claim C3, amended. When the budget \<open>B\<close> is positive and the caller's buffer is longer
  than \<open>B\<close>, the underlying read is called once, on the slice \<open>p[0:B]\<close> (length \<open>B\<close>,
  array and capacity of \<open>p\<close>): the result of \<open>Read\<close> is the result of that call, and
  the budget goes down by the count reported. If the underlying read reports a count
  between 0 and the length of the buffer it was given, the count returned lies between 0
  and \<open>B\<close>. With such an underlying stream and a budget that starts non-negative, the
  budget is non-negative after every sequence of reads, whatever the buffers.
\<close>

theorem C3_read_limited_to_budget:
  "(R l = Some rc \<and> 0 < sint (N l) \<and> sint (N l) < int (slice_len p) \<longrightarrow>
      (\<exists>n err q s'.
         ReadCloser_Read rc ctx (p\<lparr>slice_len := nat (sint (N l))\<rparr>) s = ((n, err), q, s') \<and>
         LimitedReadCloser_Read l ctx p s =
           Inr ((n, err), p\<lparr>slice_array := q\<rparr>, l\<lparr>N := N l - word_of_int n\<rparr>, s') \<and>
         (count_within_buffer rc \<longrightarrow>
            0 \<le> n \<and> n \<le> sint (N l) \<and> sint (N l - word_of_int n) = sint (N l) - n))) \<and>
   (R l2 = Some rc2 \<and> count_within_buffer rc2 \<and> 0 \<le> sint (N l2) \<longrightarrow>
      (\<exists>rs l' s'. read_calls l2 cs s2 = Inr (rs, l', s') \<and> 0 \<le> sint (N l')))"
proof (intro conjI impI)
  assume a: "R l = Some rc \<and> 0 < sint (N l) \<and> sint (N l) < int (slice_len p)"
  then have r: "R l = Some rc" and pos: "0 < sint (N l)" and
    long: "sint (N l) < int (slice_len p)"
    by simp_all
  obtain n err q s' where
    u: "ReadCloser_Read rc ctx (p\<lparr>slice_len := nat (sint (N l))\<rparr>) s = ((n, err), q, s')"
    by (metis prod.exhaust)
  have bound: "0 \<le> n \<and> n \<le> sint (N l) \<and> sint (N l - word_of_int n) = sint (N l) - n"
    if "count_within_buffer rc"
  proof -
    from that have
      "0 \<le> fst (fst (ReadCloser_Read rc ctx (p\<lparr>slice_len := nat (sint (N l))\<rparr>) s)) \<and>
       fst (fst (ReadCloser_Read rc ctx (p\<lparr>slice_len := nat (sint (N l))\<rparr>) s))
         \<le> int (slice_len (p\<lparr>slice_len := nat (sint (N l))\<rparr>))"
      unfolding count_within_buffer_def by blast
    with u pos have "0 \<le> n" and "n \<le> sint (N l)" by simp_all
    then show ?thesis by (simp add: sint_sub_count)
  qed
  from u long have u': "ReadCloser_Read rc ctx
      (if sint (N l) < int (slice_len p) then p\<lparr>slice_len := nat (sint (N l))\<rparr> else p) s
      = ((n, err), q, s')"
    by simp
  from Read_positive [OF pos r u'] u bound
  show "\<exists>n err q s'.
         ReadCloser_Read rc ctx (p\<lparr>slice_len := nat (sint (N l))\<rparr>) s = ((n, err), q, s') \<and>
         LimitedReadCloser_Read l ctx p s =
           Inr ((n, err), p\<lparr>slice_array := q\<rparr>, l\<lparr>N := N l - word_of_int n\<rparr>, s') \<and>
         (count_within_buffer rc \<longrightarrow>
            0 \<le> n \<and> n \<le> sint (N l) \<and> sint (N l - word_of_int n) = sint (N l) - n)"
    by blast
next
  assume "R l2 = Some rc2 \<and> count_within_buffer rc2 \<and> 0 \<le> sint (N l2)"
  then show "\<exists>rs l' s'. read_calls l2 cs s2 = Inr (rs, l', s') \<and> 0 \<le> sint (N l')"
    using within_read_calls [of rc2 l2 cs s2] by blast
qed

text \<open>
  The first test of the package: a budget of 25 and a buffer of 100 bytes. The mock is
  called on a slice of length 25 and the call returns 25.
\<close>

theorem C3_read_limited_to_budget_witness:
  "R \<lparr>R = Some (mockReadCloser \<lparr>Fail = False\<rparr>), N = 25\<rparr> = Some (mockReadCloser \<lparr>Fail = False\<rparr>) \<and>
   0 < sint (N \<lparr>R = Some (mockReadCloser \<lparr>Fail = False\<rparr>), N = 25\<rparr>) \<and>
   sint (N \<lparr>R = Some (mockReadCloser \<lparr>Fail = False\<rparr>), N = 25\<rparr>)
     < int (slice_len (make_bytes 100)) \<and>
   count_within_buffer (mockReadCloser \<lparr>Fail = False\<rparr>) \<and>
   (\<exists>n err q s'.
      ReadCloser_Read (mockReadCloser \<lparr>Fail = False\<rparr>) Background
        ((make_bytes 100)\<lparr>slice_len := 25\<rparr>) (\<lambda>i. of_nat i) = ((n, err), q, s') \<and>
      LimitedReadCloser_Read \<lparr>R = Some (mockReadCloser \<lparr>Fail = False\<rparr>), N = 25\<rparr>
        Background (make_bytes 100) (\<lambda>i. of_nat i) =
        Inr ((n, err), (make_bytes 100)\<lparr>slice_array := q\<rparr>,
             \<lparr>R = Some (mockReadCloser \<lparr>Fail = False\<rparr>), N = 25 - word_of_int n\<rparr>, s') \<and>
      0 \<le> n \<and> n \<le> 25 \<and> n = 25) \<and>
   (\<exists>rs l' s'.
      read_calls \<lparr>R = Some (mockReadCloser \<lparr>Fail = False\<rparr>), N = 25\<rparr>
        [(Background, make_bytes 100), (Background, make_bytes 100)] (\<lambda>i. of_nat i)
        = Inr (rs, l', s') \<and> 0 \<le> sint (N l'))"
proof -
  let ?rc = "mockReadCloser \<lparr>Fail = False\<rparr>"
  let ?l = "\<lparr>R = Some ?rc, N = 25\<rparr>"
  let ?g = "(\<lambda>i. of_nat i) :: nat \<Rightarrow> byte"
  have w: "count_within_buffer ?rc"
    by (simp add: count_within_buffer_def mockReadCloser_def MockReadCloser_Read_def
        rand_Read_def)
  have h: "R ?l = Some ?rc \<and> 0 < sint (N ?l) \<and> sint (N ?l) < int (slice_len (make_bytes 100))"
    by (simp add: make_bytes_def)
  have h2: "R ?l = Some ?rc \<and> count_within_buffer ?rc \<and> 0 \<le> sint (N ?l)"
    using w by simp
  have n25: "fst (fst (ReadCloser_Read ?rc Background ((make_bytes 100)\<lparr>slice_len := 25\<rparr>) ?g))
      = 25"
    by (simp add: mockReadCloser_def MockReadCloser_Read_def rand_Read_def)
  from C3_read_limited_to_budget
    [of ?l ?rc "make_bytes 100" Background ?g ?l ?rc
        "[(Background, make_bytes 100), (Background, make_bytes 100)]" ?g]
    h h2 w n25
  show ?thesis by auto
qed

text \<open>
  Claim C4. With a positive budget, when the underlying read (called on the slice the
  decorator grants it) reports a count \<open>n\<close> together with an error \<open>e\<close> other than
  end-of-stream, \<open>Read\<close> returns \<open>n\<close> and that same \<open>e\<close>, and the budget afterwards is
  the old budget minus \<open>int64(n)\<close>; when \<open>n\<close> lies between 0 and the budget this is the
  integer difference. When the underlying close reports an error, \<open>Close\<close> returns that
  same error.
\<close>

theorem C4_errors_forwarded:
  "(R l = Some rc \<and> 0 < sint (N l) \<and>
    ReadCloser_Read rc ctx
      (if sint (N l) < int (slice_len p) then p\<lparr>slice_len := nat (sint (N l))\<rparr> else p) s
      = ((n, Some e), q, s') \<and> e \<noteq> EOF
    \<longrightarrow> (\<exists>q' l'. LimitedReadCloser_Read l ctx p s = Inr ((n, Some e), q', l', s') \<and>
          N l' = N l - word_of_int n \<and> R l' = R l \<and>
          (0 \<le> n \<and> n \<le> sint (N l) \<longrightarrow> sint (N l') = sint (N l) - n))) \<and>
   (R l2 = Some rc2 \<and> ReadCloser_Close rc2 ctx2 s2 = (Some e2, s2')
    \<longrightarrow> LimitedReadCloser_Close l2 ctx2 s2 = Inr (Some e2, s2'))"
proof (intro conjI impI)
  assume a: "R l = Some rc \<and> 0 < sint (N l) \<and>
    ReadCloser_Read rc ctx
      (if sint (N l) < int (slice_len p) then p\<lparr>slice_len := nat (sint (N l))\<rparr> else p) s
      = ((n, Some e), q, s') \<and> e \<noteq> EOF"
  then have r: "R l = Some rc" and pos: "0 < sint (N l)" and
    u: "ReadCloser_Read rc ctx
      (if sint (N l) < int (slice_len p) then p\<lparr>slice_len := nat (sint (N l))\<rparr> else p) s
      = ((n, Some e), q, s')"
    by simp_all
  have "0 \<le> n \<and> n \<le> sint (N l) \<longrightarrow> sint (N l - word_of_int n) = sint (N l) - n"
    by (simp add: sint_sub_count)
  with Read_positive [OF pos r u]
  show "\<exists>q' l'. LimitedReadCloser_Read l ctx p s = Inr ((n, Some e), q', l', s') \<and>
          N l' = N l - word_of_int n \<and> R l' = R l \<and>
          (0 \<le> n \<and> n \<le> sint (N l) \<longrightarrow> sint (N l') = sint (N l) - n)"
    by simp
next
  assume "R l2 = Some rc2 \<and> ReadCloser_Close rc2 ctx2 s2 = (Some e2, s2')"
  then show "LimitedReadCloser_Close l2 ctx2 s2 = Inr (Some e2, s2')"
    by (simp add: LimitedReadCloser_Close_def)
qed

text \<open>
  The two error tests of the package: the failing mock behind a budget of 125 (read) and
  behind a budget of 1 (close).
\<close>

theorem C4_errors_forwarded_witness:
  "R \<lparr>R = Some (mockReadCloser \<lparr>Fail = True\<rparr>), N = 125\<rparr> = Some (mockReadCloser \<lparr>Fail = True\<rparr>) \<and>
   0 < sint (N \<lparr>R = Some (mockReadCloser \<lparr>Fail = True\<rparr>), N = 125\<rparr>) \<and>
   ReadCloser_Read (mockReadCloser \<lparr>Fail = True\<rparr>) Background (make_bytes 100) (\<lambda>i. of_nat i)
     = ((0, Some ErrExpected), slice_array (make_bytes 100), (\<lambda>i. of_nat i)) \<and>
   ErrExpected \<noteq> EOF \<and>
   (\<exists>q' l'. LimitedReadCloser_Read \<lparr>R = Some (mockReadCloser \<lparr>Fail = True\<rparr>), N = 125\<rparr>
        Background (make_bytes 100) (\<lambda>i. of_nat i)
        = Inr ((0, Some ErrExpected), q', l', (\<lambda>i. of_nat i)) \<and>
      N l' = 125 - 0 \<and> sint (N l') = 125 - 0) \<and>
   ReadCloser_Close (mockReadCloser \<lparr>Fail = True\<rparr>) Background (\<lambda>i. of_nat i)
     = (Some ErrExpected, (\<lambda>i. of_nat i)) \<and>
   LimitedReadCloser_Close \<lparr>R = Some (mockReadCloser \<lparr>Fail = True\<rparr>), N = 1\<rparr>
     Background (\<lambda>i. of_nat i) = Inr (Some ErrExpected, (\<lambda>i. of_nat i))"
proof -
  let ?rc = "mockReadCloser \<lparr>Fail = True\<rparr>"
  let ?g = "(\<lambda>i. of_nat i) :: nat \<Rightarrow> byte"
  have rd: "ReadCloser_Read ?rc Background (make_bytes 100) ?g
      = ((0, Some ErrExpected), slice_array (make_bytes 100), ?g)"
    by (simp add: mockReadCloser_def MockReadCloser_Read_def)
  have len: "slice_len (make_bytes 100) = 100" by (simp add: make_bytes_def)
  have cl: "ReadCloser_Close ?rc Background ?g = (Some ErrExpected, ?g)"
    by (simp add: mockReadCloser_def MockReadCloser_Close_def)
  have ne: "ErrExpected \<noteq> EOF" by (simp add: ErrExpected_def)
  from C4_errors_forwarded
    [of "\<lparr>R = Some ?rc, N = 125\<rparr>" ?rc Background "make_bytes 100" ?g 0 ErrExpected
        "slice_array (make_bytes 100)" ?g "\<lparr>R = Some ?rc, N = 1\<rparr>" ?rc Background ?g
        ErrExpected ?g]
    rd cl ne len
  show ?thesis by auto
qed

text \<open>
  Claim C5. With a budget of 0, \<open>Read\<close> returns \<open>(0, EOF)\<close> at once. The underlying
  read is not called: the result is the same for every value of the field \<open>R\<close>, the
  \<open>nil\<close> interface included (on which a call would panic), and the state of the
  underlying object, the caller's buffer and the decorator come back as they went in.
\<close>

theorem C5_zero_budget_immediate_EOF:
  "N l = 0 \<Longrightarrow> LimitedReadCloser_Read l ctx p s = Inr ((0, Some EOF), p, l, s)"
  by (simp add: Read_exhausted)

text \<open>
  A budget of 0 in front of the failing mock: had the mock been called, the error would
  be \<open>ErrExpected\<close>.
\<close>

theorem C5_zero_budget_immediate_EOF_witness:
  "N \<lparr>R = Some (mockReadCloser \<lparr>Fail = True\<rparr>), N = 0\<rparr> = 0 \<and>
   LimitedReadCloser_Read \<lparr>R = Some (mockReadCloser \<lparr>Fail = True\<rparr>), N = 0\<rparr>
       Background \<lparr>slice_array = [1, 2, 3], slice_len = 3\<rparr> (\<lambda>i. of_nat i)
     = Inr ((0, Some EOF), \<lparr>slice_array = [1, 2, 3], slice_len = 3\<rparr>,
            \<lparr>R = Some (mockReadCloser \<lparr>Fail = True\<rparr>), N = 0\<rparr>, (\<lambda>i. of_nat i))"
  using C5_zero_budget_immediate_EOF
    [of "\<lparr>R = Some (mockReadCloser \<lparr>Fail = True\<rparr>), N = 0\<rparr>" Background
        "\<lparr>slice_array = [1, 2, 3], slice_len = 3\<rparr>" "\<lambda>i. of_nat i"]
  by simp

text \<open>
  Claim C9. With a budget of zero or less, negative budgets included, \<open>Read\<close> returns
  \<open>(0, EOF)\<close>, and the decorator after the call is the decorator before it: the fields
  \<open>N\<close> and \<open>R\<close> are unchanged. The underlying read is not called: the state of the
  underlying object and the buffer are returned as they were, for every \<open>R\<close>, \<open>nil\<close>
  included.
\<close>

theorem C9_exhausted_read_changes_nothing:
  assumes "sint (N l) \<le> 0"
  shows "\<exists>l'. LimitedReadCloser_Read l ctx p s = Inr ((0, Some EOF), p, l', s) \<and>
           N l' = N l \<and> R l' = R l \<and> l' = l"
  using assms by (simp add: Read_exhausted)

text \<open>A budget of -5 and a \<open>nil\<close> underlying reader.\<close>

theorem C9_exhausted_read_changes_nothing_witness:
  "sint (N \<lparr>R = (None :: nat ReadCloser option), N = - 5\<rparr>) \<le> 0 \<and>
   (\<exists>l'. LimitedReadCloser_Read \<lparr>R = None, N = - 5\<rparr> (Derived 1)
            \<lparr>slice_array = [7, 8], slice_len = 2\<rparr> (0 :: nat)
           = Inr ((0, Some EOF), \<lparr>slice_array = [7, 8], slice_len = 2\<rparr>, l', 0) \<and>
         N l' = - 5 \<and> R l' = None)"
proof -
  have h: "sint (N \<lparr>R = None :: nat ReadCloser option, N = - 5\<rparr>) \<le> 0" by simp
  from C9_exhausted_read_changes_nothing
    [OF h, of "Derived 1" "\<lparr>slice_array = [7, 8], slice_len = 2\<rparr>" 0] h
  show ?thesis by simp
qed

section \<open>The adapters\<close>

text \<open>
  Claim C7. The adapter made by \<open>ToIoReadCloser\<close> from a stream \<open>rc\<close> returns on
  \<open>Read(p)\<close> and \<open>Close()\<close> what \<open>rc\<close> returns on the same call with the background
  context, and leaves the state \<open>rc\<close> leaves; likewise \<open>ToIoWriteCloser\<close> for
  \<open>Write(p)\<close> and \<open>Close()\<close>. The adapter holds the wrapped stream and nothing else.
\<close>

theorem C7_adapters_forward:
  "ioCompatReadCloser_Read (ToIoReadCloser (Some rc)) p s
     = Inr (ReadCloser_Read rc Background p s) \<and>
   ioCompatReadCloser_Close (ToIoReadCloser (Some rc)) s
     = Inr (ReadCloser_Close rc Background s) \<and>
   ioCompatWriteCloser_Write (ToIoWriteCloser (Some wc)) p s
     = Inr (WriteCloser_Write wc Background p s) \<and>
   ioCompatWriteCloser_Close (ToIoWriteCloser (Some wc)) s
     = Inr (WriteCloser_Close wc Background s) \<and>
   ToIoReadCloser (Some rc) = \<lparr>readCloser = Some rc\<rparr> \<and>
   ToIoWriteCloser (Some wc) = \<lparr>writeCloser = Some wc\<rparr>"
  by (simp add: ioCompatReadCloser_Read_def ioCompatReadCloser_Close_def
      ioCompatWriteCloser_Write_def ioCompatWriteCloser_Close_def
      ToIoReadCloser_def ToIoWriteCloser_def)

section \<open>The registry and dispatch\<close>

text \<open>
  Claim C2. For a URL whose scheme is not a key of the registry, each of the six dispatch
  functions returns \<open>ENOFS\<close> with \<open>nil\<close> for every other result, and calls no backend:
  the world of the backends is returned as it was, whatever backends the registry holds.
\<close>

theorem C2_unregistered_scheme_ENOFS:
  assumes "\<not> HasImplementation reg (Scheme u)"
  shows "OpenReader reg ctx (Some u) w = Inr ((None, Some ENOFS), w) \<and>
         OpenWriter reg ctx (Some u) w = Inr ((None, Some ENOFS), w) \<and>
         OpenAppender reg ctx (Some u) w = Inr ((None, Some ENOFS), w) \<and>
         ListEntries reg ctx (Some u) w = Inr ((None, Some ENOFS), w) \<and>
         WatchFile reg ctx (Some u) watcher w = Inr ((None, None, Some ENOFS), w) \<and>
         Remove reg ctx (Some u) w = Inr (Some ENOFS, w)"
  using GetImplementation_unregistered [OF assms]
  by (simp add: OpenReader_def OpenWriter_def OpenAppender_def ListEntries_def
      WatchFile_def Remove_def)

text \<open>
  A registry with one backend under \<open>file\<close>. A URL with scheme \<open>s3\<close> gets \<open>ENOFS\<close>
  and the call counter stays at 0; a URL with scheme \<open>file\<close> reaches the backend, which
  counts the call.
\<close>

theorem C2_unregistered_scheme_ENOFS_witness:
  "\<not> HasImplementation (AddImplementation Map.empty ''file'' (Some (unsupportedFileSystem 1)))
      (Scheme \<lparr>Scheme = ''s3'', Host = ''bucket'', Path = ''/key'', RawQuery = []\<rparr>) \<and>
   OpenReader (AddImplementation Map.empty ''file'' (Some (unsupportedFileSystem 1))) Background
     (Some \<lparr>Scheme = ''s3'', Host = ''bucket'', Path = ''/key'', RawQuery = []\<rparr>) 0
     = Inr ((None, Some ENOFS), 0) \<and>
   Remove (AddImplementation Map.empty ''file'' (Some (unsupportedFileSystem 1))) Background
     (Some \<lparr>Scheme = ''s3'', Host = ''bucket'', Path = ''/key'', RawQuery = []\<rparr>) 0
     = Inr (Some ENOFS, 0) \<and>
   Remove (AddImplementation Map.empty ''file'' (Some (unsupportedFileSystem 1))) Background
     (Some \<lparr>Scheme = ''file'', Host = [], Path = ''/key'', RawQuery = []\<rparr>) 0
     = Inr (Some EUNSUPP, 1)"
proof -
  let ?reg = "AddImplementation Map.empty ''file'' (Some (unsupportedFileSystem 1))"
  let ?u = "\<lparr>Scheme = ''s3'', Host = ''bucket'', Path = ''/key'', RawQuery = []\<rparr>"
  have h: "\<not> HasImplementation ?reg (Scheme ?u)"
    by (simp add: HasImplementation_def AddImplementation_def)
  have "Remove ?reg Background
     (Some \<lparr>Scheme = ''file'', Host = [], Path = ''/key'', RawQuery = []\<rparr>) 0
     = Inr (Some EUNSUPP, 1)"
    by (simp add: Remove_def GetImplementation_def AddImplementation_def
        unsupportedFileSystem_def)
  with C2_unregistered_scheme_ENOFS [OF h, of Background 0 None] h
  show ?thesis by simp
qed

text \<open>
  Claim C6. After \<open>AddImplementation(s, a)\<close> and then \<open>AddImplementation(s, b)\<close>,
  \<open>GetImplementation\<close> on a URL with scheme \<open>s\<close> returns \<open>b\<close>. The registry is the one
  that registering \<open>b\<close> alone would have left, so nothing later can reach \<open>a\<close> through
  it. Each dispatch function on such a URL returns what the method of \<open>b\<close> returns (or
  \<open>ENOFS\<close> when \<open>b\<close> is \<open>nil\<close>).
\<close>

theorem C6_last_registration_wins:
  "GetImplementation (AddImplementation (AddImplementation reg (Scheme u) a) (Scheme u) b)
     (Some u) = Inr b \<and>
   AddImplementation (AddImplementation reg (Scheme u) a) (Scheme u) b
     = AddImplementation reg (Scheme u) b \<and>
   OpenReader (AddImplementation (AddImplementation reg (Scheme u) a) (Scheme u) b) ctx (Some u) w
     = (case b of None \<Rightarrow> Inr ((None, Some ENOFS), w)
        | Some fs \<Rightarrow> Inr (FileSystem_OpenReader fs ctx (Some u) w)) \<and>
   OpenWriter (AddImplementation (AddImplementation reg (Scheme u) a) (Scheme u) b) ctx (Some u) w
     = (case b of None \<Rightarrow> Inr ((None, Some ENOFS), w)
        | Some fs \<Rightarrow> Inr (FileSystem_OpenWriter fs ctx (Some u) w)) \<and>
   OpenAppender (AddImplementation (AddImplementation reg (Scheme u) a) (Scheme u) b) ctx (Some u) w
     = (case b of None \<Rightarrow> Inr ((None, Some ENOFS), w)
        | Some fs \<Rightarrow> Inr (FileSystem_OpenAppender fs ctx (Some u) w)) \<and>
   ListEntries (AddImplementation (AddImplementation reg (Scheme u) a) (Scheme u) b) ctx (Some u) w
     = (case b of None \<Rightarrow> Inr ((None, Some ENOFS), w)
        | Some fs \<Rightarrow> Inr (FileSystem_ListEntries fs ctx (Some u) w)) \<and>
   WatchFile (AddImplementation (AddImplementation reg (Scheme u) a) (Scheme u) b) ctx (Some u)
       watcher w
     = (case b of None \<Rightarrow> Inr ((None, None, Some ENOFS), w)
        | Some fs \<Rightarrow> Inr (FileSystem_WatchFile fs ctx (Some u) watcher w)) \<and>
   Remove (AddImplementation (AddImplementation reg (Scheme u) a) (Scheme u) b) ctx (Some u) w
     = (case b of None \<Rightarrow> Inr (Some ENOFS, w)
        | Some fs \<Rightarrow> Inr (FileSystem_Remove fs ctx (Some u) w))"
  by (simp add: GetImplementation_def AddImplementation_def OpenReader_def OpenWriter_def
      OpenAppender_def ListEntries_def WatchFile_def Remove_def split: option.splits)

text \<open>
  Claim C10, as stated, fails: \<open>AddImplementation\<close> accepts a \<open>nil\<close> implementation.
  After \<open>AddImplementation("mem", nil)\<close> the map has the key \<open>mem\<close>, so
  \<open>HasImplementation("mem")\<close> is true, while \<open>GetImplementation\<close> returns the stored
  value, which is \<open>nil\<close>.
\<close>

theorem C10_nil_iff_not_registered_counterexample:
  "\<not> (GetImplementation (AddImplementation Map.empty ''mem'' (None :: nat FileSystem option))
         (Some \<lparr>Scheme = ''mem'', Host = [], Path = ''/a'', RawQuery = []\<rparr>) = Inr None
       \<longleftrightarrow>
       \<not> HasImplementation (AddImplementation Map.empty ''mem'' (None :: nat FileSystem option))
           (Scheme \<lparr>Scheme = ''mem'', Host = [], Path = ''/a'', RawQuery = []\<rparr>))"
  by (simp add: GetImplementation_def HasImplementation_def AddImplementation_def)

text \<open>
  Claim C10, amended. \<open>GetImplementation(u)\<close> returns \<open>nil\<close> if and only if
  \<open>HasImplementation(u.Scheme)\<close> is false or the value registered under \<open>u.Scheme\<close> is
  itself \<open>nil\<close>; when \<open>HasImplementation(u.Scheme)\<close> is true, \<open>GetImplementation(u)\<close>
  returns exactly the value registered under \<open>u.Scheme\<close>.
\<close>

theorem C10_lookup_agrees_with_registry:
  "(GetImplementation reg (Some u) = Inr None \<longleftrightarrow>
      (\<not> HasImplementation reg (Scheme u) \<or> reg (Scheme u) = Some None)) \<and>
   (HasImplementation reg (Scheme u) \<longrightarrow>
      (\<exists>v. reg (Scheme u) = Some v \<and> GetImplementation reg (Some u) = Inr v))"
  by (auto simp add: GetImplementation_def HasImplementation_def split: option.splits)

text \<open>A registry with one backend under \<open>file\<close>, looked up with a \<open>file\<close> URL.\<close>

theorem C10_lookup_agrees_with_registry_witness:
  "HasImplementation (AddImplementation Map.empty ''file'' (Some (unsupportedFileSystem 1)))
     (Scheme \<lparr>Scheme = ''file'', Host = [], Path = ''/a'', RawQuery = []\<rparr>) \<and>
   GetImplementation (AddImplementation Map.empty ''file'' (Some (unsupportedFileSystem 1)))
     (Some \<lparr>Scheme = ''file'', Host = [], Path = ''/a'', RawQuery = []\<rparr>)
     = Inr (Some (unsupportedFileSystem 1)) \<and>
   GetImplementation (AddImplementation Map.empty ''file'' (Some (unsupportedFileSystem 1)))
     (Some \<lparr>Scheme = ''file'', Host = [], Path = ''/a'', RawQuery = []\<rparr>) \<noteq> Inr None"
proof -
  let ?reg = "AddImplementation Map.empty ''file'' (Some (unsupportedFileSystem 1))"
  let ?u = "\<lparr>Scheme = ''file'', Host = [], Path = ''/a'', RawQuery = []\<rparr>"
  have h: "HasImplementation ?reg (Scheme ?u)"
    by (simp add: HasImplementation_def AddImplementation_def)
  have v: "?reg (Scheme ?u) = Some (Some (unsupportedFileSystem 1))"
    by (simp add: AddImplementation_def)
  from C10_lookup_agrees_with_registry [of ?reg ?u] h v
  show ?thesis by simp
qed

end
